theory Spec2Isabelle
  imports Complex_Main
begin

text \<open>
  SilentSOS, \<open>HelpMe.py\<close>: hand gestures seen by a camera are classified from the fingers
  that are up, the frame loop decides when a detected gesture raises an alert, and
  \<open>send_alert\<close> delivers it by SMS, falling back to WhatsApp, plays a sound and writes a
  line to the log file. The functions below follow the source; what the source takes from
  outside (clock, location service, Twilio, the sound) is an argument of the model.
\<close>

section \<open>Exceptions\<close>

text \<open>
  The exceptions of HelpMe.py that matter for control flow. \<open>TwilioRestException\<close> carries
  the \<open>code\<close> attribute read by \<open>send_alert\<close> (an optional integer in the Twilio
  library). \<open>ValueError\<close> is what tuple unpacking raises on a list of the wrong length,
  \<open>TypeError\<close> what \<open>"whatsapp:" + None\<close> raises, \<open>UnicodeEncodeError\<close> what \<open>print\<close>
  raises on text that the encoding of standard output cannot represent, and
  \<open>OtherException\<close> stands for any other subclass of \<open>Exception\<close> (a connection error, a
  \<open>RuntimeError\<close> of the beep).
\<close>

datatype exn =
    TwilioRestException "int option"
  | ValueError
  | TypeError
  | UnicodeEncodeError
  | OtherException

section \<open>Finger detection and gesture classification\<close>

text \<open>
  \<open>fingers_up\<close> reads landmark 4 against 3 on the x axis for the thumb and the tips
  8, 12, 16, 20 against the joints 6, 10, 14, 18 on the y axis, appending 1 or 0.
  A hand is its landmark table, index to (x, y).
\<close>

type_synonym hand_landmarks = "nat \<Rightarrow> real \<times> real"

definition up_bit :: "bool \<Rightarrow> int" where
  "up_bit b = (if b then 1 else 0)"

definition fingers_up :: "hand_landmarks \<Rightarrow> int list" where
  "fingers_up landmark =
     [up_bit (fst (landmark 4) < fst (landmark 3))] @
     map (\<lambda>(tip, pip). up_bit (snd (landmark tip) < snd (landmark pip)))
         (zip [8, 12, 16, 20] [6, 10, 14, 18])"

text \<open>
  \<open>classify_gesture\<close> unpacks exactly five values (anything else raises \<open>ValueError\<close>)
  and walks the if/elif chain of the source in its order.
\<close>

fun classify_gesture :: "int list \<Rightarrow> exn + string option" where
  "classify_gesture [thumb, index, middle, ring, pinky] =
     Inr (if thumb = 1 \<and> index = 1 \<and> middle = 0 \<and> ring = 0 \<and> pinky = 0
            then Some ''Kidnap Alert''
          else if index = 1 \<and> middle = 1 \<and> ring = 1 \<and> thumb = 0 \<and> pinky = 0
            then Some ''Medical Emergency''
          else if thumb = 0 \<and> index = 0 \<and> middle = 0 \<and> ring = 0 \<and> pinky = 0
            then Some ''Distress / SOS''
          else if index = 1 \<and> middle = 1 \<and> ring = 0 \<and> pinky = 0
            then Some ''Testing / V-Sign''
          else if thumb = 1 \<and> pinky = 1 \<and> index = 0 \<and> middle = 0 \<and> ring = 0
            then Some ''Call Police''
          else None)"
| "classify_gesture _ = Inl ValueError"

subsection \<open>The reference table of the specification\<close>

text \<open>
  The specification speaks of a FingerState of five booleans (Thumb, Index, Middle, Ring,
  Pinky) and of a closed taxonomy of gestures. \<open>classify_table\<close> is the six-rule priority
  table written from the specification's words, to be compared with \<open>classify_gesture\<close>;
  \<open>fingers_of\<close> is the list \<open>fingers_up\<close> builds for a finger state, and \<open>gesture_label\<close>
  the string the source uses for each gesture.
\<close>

type_synonym FingerState = "bool \<times> bool \<times> bool \<times> bool \<times> bool"

datatype Gesture = KidnapAlert | MedicalEmergency | DistressSOS | TestingVSign | CallPolice

fun gesture_label :: "Gesture \<Rightarrow> string" where
  "gesture_label KidnapAlert = ''Kidnap Alert''"
| "gesture_label MedicalEmergency = ''Medical Emergency''"
| "gesture_label DistressSOS = ''Distress / SOS''"
| "gesture_label TestingVSign = ''Testing / V-Sign''"
| "gesture_label CallPolice = ''Call Police''"

fun fingers_of :: "FingerState \<Rightarrow> int list" where
  "fingers_of (thumb, index, middle, ring, pinky) =
     [up_bit thumb, up_bit index, up_bit middle, up_bit ring, up_bit pinky]"

fun classify_table :: "FingerState \<Rightarrow> Gesture option" where
  "classify_table (thumb, index, middle, ring, pinky) =
     (if thumb \<and> index \<and> \<not> middle \<and> \<not> ring \<and> \<not> pinky then Some KidnapAlert
      else if \<not> thumb \<and> index \<and> middle \<and> ring \<and> \<not> pinky then Some MedicalEmergency
      else if \<not> thumb \<and> \<not> index \<and> \<not> middle \<and> \<not> ring \<and> \<not> pinky then Some DistressSOS
      else if index \<and> middle \<and> \<not> ring \<and> \<not> pinky then Some TestingVSign
      else if thumb \<and> \<not> index \<and> \<not> middle \<and> \<not> ring \<and> pinky then Some CallPolice
      else None)"

section \<open>The alert decision of the main loop\<close>

text \<open>
  The three variables the frame loop of \<open>main\<close> keeps between frames.
\<close>

record loop_state =
  last_sms_time :: real
  active_gesture :: "string option"
  total_alerts :: nat

text \<open>
  \<open>main\<close> starts with \<open>last_sms_time = 0.0\<close>, \<open>active_gesture = None\<close> and
  \<open>total_alerts = 0\<close>.
\<close>

definition initial_state :: loop_state where
  "initial_state = \<lparr>last_sms_time = 0, active_gesture = None, total_alerts = 0\<rparr>"

text \<open>
  Python truth of \<open>gesture_detected\<close>: \<open>None\<close> and the empty string are false.
\<close>

fun truthy :: "string option \<Rightarrow> bool" where
  "truthy None = False"
| "truthy (Some g) = (g \<noteq> [])"

text \<open>
  What a frame decides: \<open>Fire g\<close> when the alert branch runs (screenshot, counter,
  \<open>send_alert\<close> with gesture \<open>g\<close>), \<open>NoOp\<close> otherwise.
\<close>

datatype decision = Fire string | NoOp

text \<open>
  One frame, from \<open>now = time.time()\<close> to the reset of \<open>active_gesture\<close>: the alert
  branch needs a true \<open>gesture_detected\<close> that differs from \<open>active_gesture\<close> and
  \<open>now - last_sms_time > SMS_COOLDOWN\<close>; afterwards a false \<open>gesture_detected\<close>
  clears \<open>active_gesture\<close>. Timestamps and the cooldown are real numbers.
\<close>

definition alert_branch :: "real \<Rightarrow> loop_state \<Rightarrow> string option \<Rightarrow> real \<Rightarrow> bool" where
  "alert_branch cooldown s gesture_detected now =
     (truthy gesture_detected \<and> gesture_detected \<noteq> active_gesture s
        \<and> now - last_sms_time s > cooldown)"

definition frame_step ::
  "real \<Rightarrow> loop_state \<Rightarrow> string option \<times> real \<Rightarrow> loop_state \<times> decision" where
  "frame_step cooldown s frame =
     (case frame of (gesture_detected, now) \<Rightarrow>
        let (s1, d) =
              (case gesture_detected of
                 Some g \<Rightarrow>
                   if alert_branch cooldown s gesture_detected now
                   then (s\<lparr>active_gesture := gesture_detected,
                           last_sms_time := now,
                           total_alerts := total_alerts s + 1\<rparr>, Fire g)
                   else (s, NoOp)
               | None \<Rightarrow> (s, NoOp));
            s2 = (if \<not> truthy gesture_detected then s1\<lparr>active_gesture := None\<rparr> else s1)
        in (s2, d))"

text \<open>
  The \<open>while\<close> loop over the frames it evaluates, each given as the gesture detected in
  it and the value of \<open>time.time()\<close>, collecting the decision of each frame. The loop
  ends when the capture ends, on the quit key, or when a call inside it raises; the list
  holds the frames evaluated until then.
\<close>

fun run_frames ::
  "real \<Rightarrow> loop_state \<Rightarrow> (string option \<times> real) list \<Rightarrow> loop_state \<times> decision list" where
  "run_frames cooldown s [] = (s, [])"
| "run_frames cooldown s (f # fs) =
     (case frame_step cooldown s f of (s', d) \<Rightarrow>
        case run_frames cooldown s' fs of (s'', ds) \<Rightarrow> (s'', d # ds))"

definition final_state :: "real \<Rightarrow> loop_state \<Rightarrow> (string option \<times> real) list \<Rightarrow> loop_state" where
  "final_state cooldown s fs = fst (run_frames cooldown s fs)"

definition decisions :: "real \<Rightarrow> loop_state \<Rightarrow> (string option \<times> real) list \<Rightarrow> decision list" where
  "decisions cooldown s fs = snd (run_frames cooldown s fs)"

section \<open>Location lookup\<close>

text \<open>
  What \<open>geocoder.ip("me")\<close> hands back: the attributes \<open>ok\<close>, \<open>latlng\<close> and \<open>city\<close>
  read by \<open>get_location\<close>. The call itself may raise instead.
\<close>

record geo_result =
  geo_ok :: bool
  geo_latlng :: "real list"
  geo_city :: "string option"

definition fallback_location :: "real \<times> real \<times> string" where
  "fallback_location = (17.3918, 78.4752, ''Hyderabad'')"

text \<open>
  \<open>get_location\<close>: every exception inside the \<open>try\<close> (the lookup raising, \<open>latlng\<close> not
  unpacking into two values) is caught and ends in the fallback, as does \<open>g.ok\<close> being
  false; \<open>g.city or "Unknown"\<close> replaces a missing or empty city.
\<close>

definition get_location :: "exn + geo_result \<Rightarrow> real \<times> real \<times> string" where
  "get_location lookup =
     (case lookup of
        Inl e \<Rightarrow> fallback_location
      | Inr g \<Rightarrow>
          if geo_ok g then
            (case geo_latlng g of
               [lat, lon] \<Rightarrow>
                 (lat, lon,
                  case geo_city g of
                    Some city \<Rightarrow> if city \<noteq> [] then city else ''Unknown''
                  | None \<Rightarrow> ''Unknown'')
             | _ \<Rightarrow> fallback_location)
          else fallback_location)"

section \<open>Sending an alert\<close>

text \<open>
  The four Twilio settings are read with \<open>os.getenv\<close>, so each is a string or \<open>None\<close>.
  The module creates \<open>client\<close> only when the account SID and the auth token are both
  true values; otherwise \<open>client\<close> stays \<open>None\<close>.
\<close>

record config =
  TWILIO_ACCOUNT_SID :: "string option"
  TWILIO_AUTH_TOKEN :: "string option"
  TWILIO_PHONE_NUMBER :: "string option"
  RECIPIENT_PHONE_NUMBER :: "string option"

definition client_configured :: "config \<Rightarrow> bool" where
  "client_configured cfg = (truthy (TWILIO_ACCOUNT_SID cfg) \<and> truthy (TWILIO_AUTH_TOKEN cfg))"

text \<open>
  The message text is one f-string over the gesture name, the city and the two
  coordinates; it is kept as these four fields.
\<close>

record message_body =
  body_gesture :: string
  body_city :: string
  body_lat :: real
  body_lon :: real

record create_args =
  msg_body :: message_body
  msg_from :: "string option"
  msg_to :: "string option"

record message =
  sid :: string
  status :: string

text \<open>
  Everything outside the program that \<open>send_alert\<close> consults: the clock reading it
  formats, the result of the location lookup, how the Twilio service answers
  \<open>messages.create\<close> and \<open>messages(sid).fetch()\<close> (a value or an exception),
  whether \<open>play_alert_sound\<close> raises, and whether the encoding of standard output has
  the characters outside ASCII that the program prints (UTF-8 has them; ASCII and
  cp1252 lack the warning sign).
\<close>

record world =
  now_stamp :: string
  geocoder_ip :: "exn + geo_result"
  messages_create :: "create_args \<Rightarrow> exn + message"
  messages_fetch :: "string \<Rightarrow> exn + string"
  play_alert_sound :: "exn option"
  stdout_unicode :: bool

datatype channel = SMS | WhatsApp

text \<open>
  The line \<open>send_alert\<close> writes to the log file, as the values it is formatted from and
  as the text of the f-string.
\<close>

record delivery_record =
  rec_timestamp :: string
  rec_gesture :: string
  rec_city :: string
  method_used :: string
  success :: bool
  rec_screenshot :: string


text \<open>
  The effects of one call, in the order they happen: the location lookup, entering the
  \<open>try\<close> block that sends on a channel (\<open>Attempt\<close>), the two kinds of Twilio request,
  the call of \<open>play_alert_sound\<close>, and the append of \<open>log_line r\<close> to the log file.
  Console output is not recorded. Of the \<open>print\<close> calls only the one that announces the
  switch to WhatsApp has literal text outside ASCII; it is the one \<open>print\<close> modelled as able
  to raise. The others are taken to succeed, and the log file is taken to be writable.
\<close>

datatype effect =
    GeocoderIp
  | Attempt channel
  | MessagesCreate create_args
  | MessagesFetch string
  | PlayAlertSound
  | LogAppend delivery_record

text \<open>
  The body of the outer \<open>try\<close>: create the SMS, fetch its status, and set \<open>success\<close> when
  the status is one of the three accepted ones. The result is the new value of
  \<open>success\<close>, or the exception that left the block.
\<close>

definition sms_args :: "config \<Rightarrow> message_body \<Rightarrow> create_args" where
  "sms_args cfg body =
     \<lparr>msg_body = body, msg_from = TWILIO_PHONE_NUMBER cfg, msg_to = RECIPIENT_PHONE_NUMBER cfg\<rparr>"

definition sms_attempt :: "world \<Rightarrow> config \<Rightarrow> message_body \<Rightarrow> effect list \<times> (exn + bool)" where
  "sms_attempt w cfg body =
     (let args = sms_args cfg body in
      case messages_create w args of
        Inl e \<Rightarrow> ([MessagesCreate args], Inl e)
      | Inr message \<Rightarrow>
          (case messages_fetch w (sid message) of
             Inl e \<Rightarrow> ([MessagesCreate args, MessagesFetch (sid message)], Inl e)
           | Inr st \<Rightarrow>
               ([MessagesCreate args, MessagesFetch (sid message)],
                Inr (st \<in> set [''sent'', ''delivered'', ''queued'']))))"

text \<open>
  The body of the inner \<open>try\<close>: \<open>"whatsapp:" + RECIPIENT_PHONE_NUMBER\<close> raises
  \<open>TypeError\<close> on \<open>None\<close> before any request is made; otherwise one \<open>create\<close> from the
  sandbox number.
\<close>

definition whatsapp_args :: "string \<Rightarrow> message_body \<Rightarrow> create_args" where
  "whatsapp_args recipient body =
     \<lparr>msg_body = body, msg_from = Some ''whatsapp:+14155238886'',
      msg_to = Some (''whatsapp:'' @ recipient)\<rparr>"

definition whatsapp_attempt ::
  "world \<Rightarrow> config \<Rightarrow> message_body \<Rightarrow> effect list \<times> (exn + message)" where
  "whatsapp_attempt w cfg body =
     (case RECIPIENT_PHONE_NUMBER cfg of
        None \<Rightarrow> ([], Inl TypeError)
      | Some recipient \<Rightarrow>
          (let args = whatsapp_args recipient body
           in ([MessagesCreate args], messages_create w args)))"

text \<open>
  The \<open>if client:\<close> statement. Only \<open>TwilioRestException\<close> is handled by the outer
  \<open>except\<close>, any other exception leaves \<open>send_alert\<close>. On code 30004 the handler first
  prints a notice that starts with a warning sign: where standard output cannot encode
  it, \<open>print\<close> raises \<open>UnicodeEncodeError\<close> inside the handler, outside the inner \<open>try\<close>,
  and the exception leaves \<open>send_alert\<close>. Otherwise \<open>method_used\<close> becomes WhatsApp and
  the inner \<open>try\<close> runs, whose \<open>except Exception\<close> handles everything. The result is the
  pair \<open>(method_used, success)\<close> or the escaping exception.
\<close>

definition deliver ::
  "world \<Rightarrow> config \<Rightarrow> message_body \<Rightarrow> effect list \<times> (exn + string \<times> bool)" where
  "deliver w cfg body =
     (if client_configured cfg then
        (case sms_attempt w cfg body of
           (es, Inr ok) \<Rightarrow> (Attempt SMS # es, Inr (''SMS'', ok))
         | (es, Inl (TwilioRestException code)) \<Rightarrow>
             if code = Some 30004 then
               if \<not> stdout_unicode w then (Attempt SMS # es, Inl UnicodeEncodeError)
               else
                 (case whatsapp_attempt w cfg body of
                    (es', Inr whatsapp_msg) \<Rightarrow>
                      (Attempt SMS # es @ Attempt WhatsApp # es', Inr (''WhatsApp'', True))
                  | (es', Inl we) \<Rightarrow>
                      (Attempt SMS # es @ Attempt WhatsApp # es', Inr (''WhatsApp'', False)))
             else (Attempt SMS # es, Inr (''SMS'', False))
         | (es, Inl e) \<Rightarrow> (Attempt SMS # es, Inl e))
      else ([], Inr (''SMS'', False)))"

definition alert_body :: "world \<Rightarrow> string \<Rightarrow> message_body" where
  "alert_body w gesture_name =
     (case get_location (geocoder_ip w) of (lat, lon, city) \<Rightarrow>
        \<lparr>body_gesture = gesture_name, body_city = city, body_lat = lat, body_lon = lon\<rparr>)"

text \<open>
  \<open>send_alert\<close>: timestamp, location, body, delivery, then \<open>play_alert_sound()\<close> and the
  log append, neither inside a \<open>try\<close>. The result is the list of effects and the
  exception that left the call, if any.
\<close>

definition send_alert :: "world \<Rightarrow> config \<Rightarrow> string \<Rightarrow> string \<Rightarrow> effect list \<times> exn option" where
  "send_alert w cfg screenshot_path gesture_name =
     (let timestamp = now_stamp w;
          city = snd (snd (get_location (geocoder_ip w)));
          body = alert_body w gesture_name
      in case deliver w cfg body of
           (es, Inl e) \<Rightarrow> (GeocoderIp # es, Some e)
         | (es, Inr (method, ok)) \<Rightarrow>
             (case play_alert_sound w of
                Some e \<Rightarrow> (GeocoderIp # es @ [PlayAlertSound], Some e)
              | None \<Rightarrow>
                  (GeocoderIp # es @
                     [PlayAlertSound,
                      LogAppend \<lparr>rec_timestamp = timestamp, rec_gesture = gesture_name,
                                 rec_city = city, method_used = method, success = ok,
                                 rec_screenshot = screenshot_path\<rparr>],
                   None)))"

text \<open>Reading a list of effects: the records appended, the attempts, the requests.\<close>

fun log_records :: "effect list \<Rightarrow> delivery_record list" where
  "log_records [] = []"
| "log_records (LogAppend r # es) = r # log_records es"
| "log_records (e # es) = log_records es"

fun attempts :: "effect list \<Rightarrow> channel list" where
  "attempts [] = []"
| "attempts (Attempt c # es) = c # attempts es"
| "attempts (e # es) = attempts es"

fun requests :: "effect list \<Rightarrow> effect list" where
  "requests [] = []"
| "requests (MessagesCreate a # es) = MessagesCreate a # requests es"
| "requests (MessagesFetch s # es) = MessagesFetch s # requests es"
| "requests (e # es) = requests es"

fun sends :: "effect list \<Rightarrow> create_args list" where
  "sends [] = []"
| "sends (MessagesCreate a # es) = a # sends es"
| "sends (e # es) = sends es"

text \<open>
  The primary attempt is blocked when the client exists and the outer \<open>try\<close> is left by
  a \<open>TwilioRestException\<close> whose code is 30004 (raised by \<open>create\<close> or by \<open>fetch\<close>).
\<close>

definition sms_blocked :: "world \<Rightarrow> config \<Rightarrow> message_body \<Rightarrow> bool" where
  "sms_blocked w cfg body =
     (client_configured cfg \<and>
      snd (sms_attempt w cfg body) = Inl (TwilioRestException (Some 30004)))"

definition primary_blocked :: "world \<Rightarrow> config \<Rightarrow> string \<Rightarrow> bool" where
  "primary_blocked w cfg gesture_name = sms_blocked w cfg (alert_body w gesture_name)"


section \<open>Concrete inputs\<close>

text \<open>
  Settings and answers of the outside world used to run \<open>send_alert\<close> on concrete
  inputs: no credentials at all, a full set of credentials; a Twilio service that accepts
  every message, one that rejects the SMS with code 30004 and accepts the WhatsApp message
  with status "failed", one that cannot be reached; a status fetch answering "queued" or
  "undelivered"; a beep that works or raises; a console in UTF-8 or in ASCII.
\<close>

definition config_unset :: config where
  "config_unset = \<lparr>TWILIO_ACCOUNT_SID = None, TWILIO_AUTH_TOKEN = None,
                    TWILIO_PHONE_NUMBER = None, RECIPIENT_PHONE_NUMBER = None\<rparr>"

definition config_set :: config where
  "config_set = \<lparr>TWILIO_ACCOUNT_SID = Some ''AC00'', TWILIO_AUTH_TOKEN = Some ''secret'',
                  TWILIO_PHONE_NUMBER = Some ''+15550100'',
                  RECIPIENT_PHONE_NUMBER = Some ''+15550199''\<rparr>"

definition create_accepts :: "create_args \<Rightarrow> exn + message" where
  "create_accepts args = Inr \<lparr>sid = ''SM01'', status = ''queued''\<rparr>"

definition create_blocks_sms :: "create_args \<Rightarrow> exn + message" where
  "create_blocks_sms args =
     (if msg_from args = Some ''whatsapp:+14155238886''
      then Inr \<lparr>sid = ''SM02'', status = ''failed''\<rparr>
      else Inl (TwilioRestException (Some 30004)))"

definition create_offline :: "create_args \<Rightarrow> exn + message" where
  "create_offline args = Inl OtherException"

definition fetch_queued :: "string \<Rightarrow> exn + string" where
  "fetch_queued s = Inr ''queued''"

definition fetch_undelivered :: "string \<Rightarrow> exn + string" where
  "fetch_undelivered s = Inr ''undelivered''"

definition world_quiet :: world where
  "world_quiet = \<lparr>now_stamp = ''2024-05-01_12-00-00'', geocoder_ip = Inl OtherException,
                   messages_create = create_accepts, messages_fetch = fetch_queued,
                   play_alert_sound = None, stdout_unicode = True\<rparr>"

definition world_no_sound :: world where
  "world_no_sound = world_quiet\<lparr>play_alert_sound := Some OtherException\<rparr>"

definition world_blocked :: world where
  "world_blocked = world_quiet\<lparr>messages_create := create_blocks_sms\<rparr>"

definition world_blocked_ascii :: world where
  "world_blocked_ascii = world_blocked\<lparr>stdout_unicode := False\<rparr>"

definition world_offline :: world where
  "world_offline = world_quiet\<lparr>messages_create := create_offline\<rparr>"

definition world_undelivered :: world where
  "world_undelivered = world_quiet\<lparr>messages_fetch := fetch_undelivered\<rparr>"

section \<open>Classification\<close>

lemma fingers_up_eq:
  "fingers_up lm =
     fingers_of (fst (lm 4) < fst (lm 3), snd (lm 8) < snd (lm 6), snd (lm 12) < snd (lm 10),
                 snd (lm 16) < snd (lm 14), snd (lm 20) < snd (lm 18))"
  by (simp add: fingers_up_def)

text \<open>
  C5: on each of the 32 finger states \<open>classify_gesture\<close> returns (it never raises), and
  what it returns is the label of the gesture that the six-rule priority table gives,
  or \<open>None\<close> where the table gives none.
\<close>

theorem classify_gesture_refines_table:
  "classify_gesture (fingers_of fs) = Inr (map_option gesture_label (classify_table fs))"
proof -
  obtain t i m r p where fs: "fs = (t, i, m, r, p)"
    by (cases fs) auto
  show ?thesis
    unfolding fs by (cases t; cases i; cases m; cases r; cases p) (simp_all add: up_bit_def)
qed

text \<open>
  C6: the claim fails. For Thumb folded, Index and Middle extended, Ring and Pinky folded,
  \<open>classify_gesture\<close> returns "Testing / V-Sign", not "Kidnap Alert".
\<close>

theorem overlap_state_counterexample:
  "classify_gesture (fingers_of (False, True, True, False, False))
     = Inr (Some (gesture_label TestingVSign))
   \<and> classify_gesture (fingers_of (False, True, True, False, False))
     \<noteq> Inr (Some (gesture_label KidnapAlert))"
  by (simp add: up_bit_def)

text \<open>
  C6, amended: with Index and Middle extended and Ring and Pinky folded the result is
  "Testing / V-Sign" whatever the thumb does, and "Kidnap Alert" is returned exactly for
  Thumb and Index extended with Middle, Ring and Pinky folded. The two rules never match
  the same finger state, so their order decides nothing.
\<close>

theorem kidnap_and_vsign_disjoint:
  "classify_gesture (fingers_of (thumb, True, True, False, False))
     = Inr (Some (gesture_label TestingVSign))
   \<and> (classify_gesture (fingers_of (thumb, index, middle, ring, pinky))
        = Inr (Some (gesture_label KidnapAlert))
      \<longleftrightarrow> thumb \<and> index \<and> \<not> middle \<and> \<not> ring \<and> \<not> pinky)"
  by (cases thumb; cases index; cases middle; cases ring; cases pinky) (simp_all add: up_bit_def)

section \<open>The alert decision: single frames\<close>

lemma frame_step_None [simp]:
  "frame_step c s (None, now) = (s\<lparr>active_gesture := None\<rparr>, NoOp)"
  by (simp add: frame_step_def)

lemma frame_step_Some:
  "frame_step c s (Some g, now) =
     (if g \<noteq> [] \<and> Some g \<noteq> active_gesture s \<and> c < now - last_sms_time s
      then (s\<lparr>active_gesture := Some g, last_sms_time := now, total_alerts := total_alerts s + 1\<rparr>, Fire g)
      else if g = [] then (s\<lparr>active_gesture := None\<rparr>, NoOp)
      else (s, NoOp))"
  by (simp add: frame_step_def alert_branch_def)

lemma frame_step_FireD:
  assumes "frame_step c s (gd, now) = (s', Fire g)"
  shows "gd = Some g \<and> g \<noteq> [] \<and> Some g \<noteq> active_gesture s \<and> c < now - last_sms_time s
         \<and> last_sms_time s' = now \<and> active_gesture s' = Some g"
  using assms by (cases gd) (auto simp: frame_step_Some split: if_splits)

lemma frame_step_NoOpD:
  assumes "frame_step c s (gd, now) = (s', NoOp)"
  shows "last_sms_time s' = last_sms_time s
         \<and> (active_gesture s' = (if truthy gd then active_gesture s else None))"
  using assms by (cases gd) (auto simp: frame_step_Some split: if_splits)

lemma decisions_Nil [simp]: "decisions c s [] = []"
  by (simp add: decisions_def)

lemma decisions_Cons [simp]:
  "decisions c s (f # fs) = snd (frame_step c s f) # decisions c (fst (frame_step c s f)) fs"
  by (simp add: decisions_def split: prod.splits)

lemma final_state_Nil [simp]: "final_state c s [] = s"
  by (simp add: final_state_def)

lemma final_state_Cons [simp]:
  "final_state c s (f # fs) = final_state c (fst (frame_step c s f)) fs"
  by (simp add: final_state_def split: prod.splits)

lemma length_decisions [simp]: "length (decisions c s fs) = length fs"
  by (induction fs arbitrary: s) simp_all

section \<open>Fires are more than a cooldown apart\<close>

text \<open>
  Every fire of a run happens more than the cooldown after the \<open>last_sms_time\<close> the run
  started with; a fire moves \<open>last_sms_time\<close> forward when the cooldown is not negative.
\<close>

lemma fire_after_last:
  assumes "0 \<le> c" "j < length fs" "decisions c s fs ! j = Fire g"
  shows "c < snd (fs ! j) - last_sms_time s"
  using assms
proof (induction fs arbitrary: s j)
  case Nil
  then show ?case by simp
next
  case (Cons f fs)
  obtain gd now where f: "f = (gd, now)" by (cases f)
  obtain s' d where st: "frame_step c s (gd, now) = (s', d)" by (cases "frame_step c s (gd, now)")
  show ?case
  proof (cases j)
    case 0
    with Cons.prems f st have "d = Fire g" by simp
    with st frame_step_FireD show ?thesis using 0 f by fastforce
  next
    case (Suc k)
    with Cons.prems f st have k: "k < length fs" "decisions c s' fs ! k = Fire g" by simp_all
    from Cons.IH [OF Cons.prems(1) k] have a: "c < snd (fs ! k) - last_sms_time s'" .
    have "last_sms_time s \<le> last_sms_time s'"
    proof (cases d)
      case (Fire g')
      with st frame_step_FireD [of c s gd now s' g'] Cons.prems(1) show ?thesis by simp
    next
      case NoOp
      with st frame_step_NoOpD [of c s gd now s'] show ?thesis by simp
    qed
    with a show ?thesis using Suc by simp
  qed
qed

text \<open>
  C1: for any sequence of frames (detected gesture, timestamp) and any cooldown that is
  not negative, two fires of the run from the initial state are more than the cooldown
  apart: the later frame's timestamp exceeds the earlier one's by more than the cooldown,
  so their distance is never less than the cooldown.
\<close>

theorem fires_apart:
  assumes "0 \<le> cooldown" "i < j" "j < length fs"
    and "decisions cooldown initial_state fs ! i = Fire g"
    and "decisions cooldown initial_state fs ! j = Fire g'"
  shows "cooldown < snd (fs ! j) - snd (fs ! i) \<and> \<not> \<bar>snd (fs ! j) - snd (fs ! i)\<bar> < cooldown"
proof -
  have gen: "i < j \<Longrightarrow> j < length fs \<Longrightarrow> decisions cooldown s fs ! i = Fire g \<Longrightarrow>
      decisions cooldown s fs ! j = Fire g' \<Longrightarrow> cooldown < snd (fs ! j) - snd (fs ! i)" for s
  proof (induction fs arbitrary: s i j)
    case Nil
    then show ?case by simp
  next
    case (Cons f fs)
    obtain gd now where f: "f = (gd, now)" by (cases f)
    obtain s' d where st: "frame_step cooldown s (gd, now) = (s', d)"
      by (cases "frame_step cooldown s (gd, now)")
    from Cons.prems(1) obtain k where j: "j = Suc k" by (cases j) auto
    with Cons.prems f st have k: "k < length fs" "decisions cooldown s' fs ! k = Fire g'"
      by simp_all
    show ?case
    proof (cases i)
      case 0
      with Cons.prems f st have "d = Fire g" by simp
      with st frame_step_FireD [of cooldown s gd now s' g] have "last_sms_time s' = now" by simp
      with fire_after_last [OF assms(1) k] show ?thesis using 0 j f by simp
    next
      case (Suc i')
      with Cons.prems f st j have "i' < k" "decisions cooldown s' fs ! i' = Fire g" by simp_all
      from Cons.IH [OF this(1) k(1) this(2) k(2)] show ?thesis using Suc j by simp
    qed
  qed
  from gen [OF assms(2-5)] assms(1) show ?thesis by simp
qed

text \<open>
  C1 at a concrete run: cooldown 30, a fire at 100, no gesture at 110, a fire at 131.
\<close>

theorem fires_apart_witness:
  "(0::real) \<le> 30 \<and> (0::nat) < 2 \<and> 2 < length [(Some ''Kidnap Alert'', 100::real), (None, 110), (Some ''Call Police'', 131)]
   \<and> decisions 30 initial_state [(Some ''Kidnap Alert'', 100), (None, 110), (Some ''Call Police'', 131)] ! 0 = Fire ''Kidnap Alert''
   \<and> decisions 30 initial_state [(Some ''Kidnap Alert'', 100), (None, 110), (Some ''Call Police'', 131)] ! 2 = Fire ''Call Police''
   \<and> (30::real) < snd ([(Some ''Kidnap Alert'', 100::real), (None, 110), (Some ''Call Police'', 131)] ! 2)
         - snd ([(Some ''Kidnap Alert'', 100::real), (None, 110), (Some ''Call Police'', 131)] ! 0)"
proof -
  let ?fs = "[(Some ''Kidnap Alert'', 100::real), (None, 110), (Some ''Call Police'', 131)]"
  have a: "(0::real) \<le> 30" by simp
  have b: "(0::nat) < 2" by simp
  have c: "2 < length ?fs" by simp
  have d: "decisions 30 initial_state ?fs ! 0 = Fire ''Kidnap Alert''"
    by (simp add: frame_step_Some initial_state_def)
  have e: "decisions 30 initial_state ?fs ! 2 = Fire ''Call Police''"
    by (simp add: frame_step_Some initial_state_def)
  from fires_apart [OF a b c d e] a b c d e show ?thesis by simp
qed

section \<open>The first detected gesture\<close>

lemma run_frames_append:
  "run_frames c s (xs @ ys) =
     (case run_frames c s xs of (s', ds) \<Rightarrow>
        case run_frames c s' ys of (s'', ds') \<Rightarrow> (s'', ds @ ds'))"
  by (induction xs arbitrary: s) (simp_all split: prod.splits)

lemma no_gesture_noop:
  assumes "\<forall>f\<in>set fs. \<not> truthy (fst f)" "active_gesture s = None"
  shows "run_frames c s fs = (s, replicate (length fs) NoOp)"
  using assms
proof (induction fs)
  case Nil
  then show ?case by simp
next
  case (Cons f fs)
  obtain gd now where f: "f = (gd, now)" by (cases f)
  from Cons.prems have "\<not> truthy gd" by (simp add: f)
  moreover have "s\<lparr>active_gesture := None\<rparr> = s" using Cons.prems(2) by (cases s) simp
  ultimately have "frame_step c s f = (s, NoOp)"
    by (cases gd) (simp_all add: f frame_step_Some)
  with Cons show ?case by simp
qed

text \<open>
  C2: the claim fails. \<open>last_sms_time\<close> starts at 0.0, not unset, so for the gestures
  [None, Kidnap Alert, Kidnap Alert, None, Kidnap Alert] at times [0, 1, 2, 3, 4] with
  cooldown 30 no frame fires.
\<close>

theorem first_frame_scenario_counterexample:
  "decisions 30 initial_state
     [(None, 0), (Some ''Kidnap Alert'', 1), (Some ''Kidnap Alert'', 2), (None, 3),
      (Some ''Kidnap Alert'', 4)] = [NoOp, NoOp, NoOp, NoOp, NoOp]
   \<and> decisions 30 initial_state
     [(None, 0), (Some ''Kidnap Alert'', 1), (Some ''Kidnap Alert'', 2), (None, 3),
      (Some ''Kidnap Alert'', 4)] \<noteq> [NoOp, Fire ''Kidnap Alert'', NoOp, NoOp, NoOp]"
  by (simp add: frame_step_Some initial_state_def)

text \<open>
  C2, amended: from the initial state, after any frames without a gesture, the first frame
  with a detected gesture fires exactly when \<open>now\<close> is greater than the cooldown
  (\<open>now - 0.0 > cooldown\<close>). The scenario at times [0, 1, 2, 3, 4] with cooldown 30
  gives no fire; the same gestures at times [100, 101, 102, 103, 104] give exactly one
  fire, of Kidnap Alert, at the second frame.
\<close>

theorem first_gesture_fires_after_cooldown:
  assumes "\<forall>f\<in>set pre. \<not> truthy (fst f)" "g \<noteq> []"
  shows "decisions cooldown initial_state (pre @ [(Some g, now)]) =
           replicate (length pre) NoOp @ [if cooldown < now then Fire g else NoOp]
       \<and> decisions 30 initial_state
           [(None, 0), (Some ''Kidnap Alert'', 1), (Some ''Kidnap Alert'', 2), (None, 3),
            (Some ''Kidnap Alert'', 4)] = [NoOp, NoOp, NoOp, NoOp, NoOp]
       \<and> decisions 30 initial_state
           [(None, 100), (Some ''Kidnap Alert'', 101), (Some ''Kidnap Alert'', 102), (None, 103),
            (Some ''Kidnap Alert'', 104)] = [NoOp, Fire ''Kidnap Alert'', NoOp, NoOp, NoOp]"
proof -
  have "active_gesture initial_state = None" by (simp add: initial_state_def)
  from no_gesture_noop [OF assms(1) this, of cooldown]
  have "decisions cooldown initial_state (pre @ [(Some g, now)]) =
           replicate (length pre) NoOp @ [snd (frame_step cooldown initial_state (Some g, now))]"
    by (simp add: decisions_def run_frames_append split: prod.splits)
  moreover have "snd (frame_step cooldown initial_state (Some g, now)) =
      (if cooldown < now then Fire g else NoOp)"
    using assms(2) by (simp add: frame_step_Some initial_state_def)
  moreover have "decisions 30 initial_state
           [(None, 0), (Some ''Kidnap Alert'', 1), (Some ''Kidnap Alert'', 2), (None, 3),
            (Some ''Kidnap Alert'', 4)] = [NoOp, NoOp, NoOp, NoOp, NoOp]"
    by (simp add: frame_step_Some initial_state_def)
  moreover have "decisions 30 initial_state
           [(None, 100), (Some ''Kidnap Alert'', 101), (Some ''Kidnap Alert'', 102), (None, 103),
            (Some ''Kidnap Alert'', 104)] = [NoOp, Fire ''Kidnap Alert'', NoOp, NoOp, NoOp]"
    by (simp add: frame_step_Some initial_state_def)
  ultimately show ?thesis by simp
qed

text \<open>
  C2, amended, at concrete runs: two frames without a gesture, then Call Police at time 7
  (no fire) and at time 31 (fire), cooldown 30.
\<close>

theorem first_gesture_fires_after_cooldown_witness:
  "\<not> truthy (fst (None, 5::real)) \<and> \<not> truthy (fst (Some [], 6::real)) \<and> ''Call Police'' \<noteq> []
   \<and> decisions 30 initial_state ([(None, 5), (Some [], 6)] @ [(Some ''Call Police'', 7)]) =
        [NoOp, NoOp, NoOp]
   \<and> decisions 30 initial_state ([(None, 5), (Some [], 6)] @ [(Some ''Call Police'', 31)]) =
        [NoOp, NoOp, Fire ''Call Police'']"
proof -
  have h: "\<forall>f\<in>set [(None, 5::real), (Some [], 6)]. \<not> truthy (fst f)" by simp
  have g: "''Call Police'' \<noteq> []" by simp
  show ?thesis
    using h g first_gesture_fires_after_cooldown [OF h g, of 30 7]
      first_gesture_fires_after_cooldown [OF h g, of 30 31]
    by simp
qed

section \<open>The cooldown boundary\<close>

lemma held_gesture_noop:
  assumes "\<forall>f\<in>set fs. fst f = Some g" "g \<noteq> []" "active_gesture s = Some g"
  shows "run_frames c s fs = (s, replicate (length fs) NoOp)"
  using assms
proof (induction fs)
  case Nil
  then show ?case by simp
next
  case (Cons f fs)
  then obtain now where f: "f = (Some g, now)" by (cases f) auto
  from Cons.prems have "frame_step c s f = (s, NoOp)" by (simp add: f frame_step_Some)
  with Cons show ?case by simp
qed

lemma blocked_gesture_noop:
  assumes "\<forall>f\<in>set fs. fst f = Some g \<and> snd f - last_sms_time s \<le> c" "g \<noteq> []"
  shows "run_frames c s fs = (s, replicate (length fs) NoOp)"
  using assms
proof (induction fs)
  case Nil
  then show ?case by simp
next
  case (Cons f fs)
  then obtain now where f: "f = (Some g, now)" and now: "now - last_sms_time s \<le> c"
    by (cases f) auto
  from Cons.prems now have "frame_step c s f = (s, NoOp)" by (simp add: f frame_step_Some)
  with Cons show ?case by simp
qed

lemma new_gesture_decisions:
  assumes "active_gesture s = Some g0" "last_sms_time s = t0" "g1 \<noteq> g0" "g1 \<noteq> []"
    and "\<forall>f\<in>set fs. fst f = Some g1" "i < length fs"
  shows "decisions c s fs ! i =
           (if c < snd (fs ! i) - t0 \<and> (\<forall>k<i. snd (fs ! k) - t0 \<le> c) then Fire g1 else NoOp)"
  using assms(5,6)
proof (induction fs arbitrary: i)
  case Nil
  then show ?case by simp
next
  case (Cons f fs)
  then obtain now where f: "f = (Some g1, now)" by (cases f) auto
  show ?case
  proof (cases "c < now - t0")
    case True
    let ?s' = "s\<lparr>active_gesture := Some g1, last_sms_time := now, total_alerts := total_alerts s + 1\<rparr>"
    from True assms(1-4) have st: "frame_step c s f = (?s', Fire g1)"
      by (simp add: f frame_step_Some)
    show ?thesis
    proof (cases i)
      case 0
      with st True show ?thesis by (simp add: f)
    next
      case (Suc k)
      from Cons.prems have "\<forall>f\<in>set fs. fst f = Some g1" by simp
      from held_gesture_noop [OF this assms(4), of ?s' c]
      have "decisions c ?s' fs = replicate (length fs) NoOp" by (simp add: decisions_def)
      moreover from Suc Cons.prems have "k < length fs" by simp
      ultimately show ?thesis using st Suc True by (auto simp: f)
    qed
  next
    case False
    from False assms(1-4) have st: "frame_step c s f = (s, NoOp)"
      by (simp add: f frame_step_Some)
    show ?thesis
    proof (cases i)
      case 0
      with st False show ?thesis by (simp add: f)
    next
      case (Suc k)
      with Cons.prems have "\<forall>f\<in>set fs. fst f = Some g1" "k < length fs" by simp_all
      from Cons.IH [OF this] st Suc False show ?thesis
        by (simp add: f All_less_Suc2)
    qed
  qed
qed

lemma blocked_prefix_state:
  assumes "g1 \<noteq> []" "\<forall>f\<in>set fs. fst f = Some g1" "i \<le> length fs"
    and "\<forall>k<i. snd (fs ! k) - last_sms_time s \<le> c"
  shows "final_state c s (take i fs) = s"
proof -
  have "\<forall>f\<in>set (take i fs). fst f = Some g1 \<and> snd f - last_sms_time s \<le> c"
  proof
    fix f assume "f \<in> set (take i fs)"
    then obtain k where k: "k < length (take i fs)" "take i fs ! k = f"
      by (auto simp: in_set_conv_nth)
    with assms(3) have "k < i" "fs ! k = f" by simp_all
    moreover from assms(2) k(1) \<open>fs ! k = f\<close> have "fst f = Some g1"
      by (metis length_take min_less_iff_conj nth_mem)
    ultimately show "fst f = Some g1 \<and> snd f - last_sms_time s \<le> c" using assms(4) by auto
  qed
  from blocked_gesture_noop [OF this assms(1)] show ?thesis by (simp add: final_state_def)
qed

lemma decisions_append:
  "decisions c s (xs @ ys) = decisions c s xs @ decisions c (final_state c s xs) ys"
  by (simp add: decisions_def final_state_def run_frames_append split: prod.splits)

lemma final_state_append:
  "final_state c s (xs @ ys) = final_state c (final_state c s xs) ys"
  by (simp add: final_state_def run_frames_append split: prod.splits)

text \<open>
  C3: cooldown 30, in a run of the loop from the initial state. Let the frame after any
  frames \<open>pre\<close> fire \<open>g0\<close> at time \<open>t0\<close>, and let the frames \<open>fs\<close> that follow all detect
  another gesture \<open>g1\<close>. Counting time from the fire (the loop starts with
  \<open>last_sms_time = 0.0\<close>, so with cooldown 30 its fires come after time 30 and the claim's
  fire at 0 is the fire at \<open>t0\<close>): no frame of \<open>fs\<close> at most 30 after the fire fires; the
  first frame more than 30 after it fires \<open>g1\<close>; and as long as every frame so far was at
  most 30 after the fire, \<open>active_gesture\<close> is still \<open>g0\<close>, so \<open>g1\<close> has not been armed.
\<close>

theorem cooldown_boundary:
  assumes "decisions 30 initial_state (pre @ [(Some g0, t0)]) ! length pre = Fire g0"
    and "g1 \<noteq> g0" "g1 \<noteq> []" "\<forall>f\<in>set fs. fst f = Some g1"
  shows "(\<forall>i<length fs. snd (fs ! i) - t0 \<le> 30 \<longrightarrow>
            decisions 30 initial_state (pre @ (Some g0, t0) # fs) ! (length pre + 1 + i) = NoOp)
       \<and> (\<forall>i<length fs. 30 < snd (fs ! i) - t0 \<and> (\<forall>k<i. snd (fs ! k) - t0 \<le> 30) \<longrightarrow>
            decisions 30 initial_state (pre @ (Some g0, t0) # fs) ! (length pre + 1 + i) = Fire g1)
       \<and> (\<forall>i\<le>length fs. (\<forall>k<i. snd (fs ! k) - t0 \<le> 30) \<longrightarrow>
            active_gesture (final_state 30 initial_state (pre @ (Some g0, t0) # take i fs)) = Some g0
            \<and> active_gesture (final_state 30 initial_state (pre @ (Some g0, t0) # take i fs))
                 \<noteq> Some g1)"
proof -
  let ?before = "final_state 30 initial_state pre"
  obtain s d where st: "frame_step 30 ?before (Some g0, t0) = (s, d)"
    by (cases "frame_step 30 ?before (Some g0, t0)")
  from assms(1) have "d = Fire g0"
    by (simp add: decisions_append st nth_append)
  with st have fire: "frame_step 30 ?before (Some g0, t0) = (s, Fire g0)" by simp
  from frame_step_FireD [OF fire]
  have s: "active_gesture s = Some g0" "last_sms_time s = t0" by simp_all
  have dec: "decisions 30 initial_state (pre @ (Some g0, t0) # fs) ! (length pre + 1 + i)
               = decisions 30 s fs ! i" for i
    by (simp add: decisions_append fire nth_append)
  have fin: "final_state 30 initial_state (pre @ (Some g0, t0) # take i fs)
               = final_state 30 s (take i fs)" for i
    by (simp add: final_state_append fire)
  note new = new_gesture_decisions [OF s assms(2,3,4), of _ 30]
  have 1: "\<forall>i<length fs. snd (fs ! i) - t0 \<le> 30 \<longrightarrow>
            decisions 30 initial_state (pre @ (Some g0, t0) # fs) ! (length pre + 1 + i) = NoOp"
    unfolding dec using new by simp
  have 2: "\<forall>i<length fs. 30 < snd (fs ! i) - t0 \<and> (\<forall>k<i. snd (fs ! k) - t0 \<le> 30) \<longrightarrow>
            decisions 30 initial_state (pre @ (Some g0, t0) # fs) ! (length pre + 1 + i) = Fire g1"
    unfolding dec using new by simp
  have 3: "\<forall>i\<le>length fs. (\<forall>k<i. snd (fs ! k) - t0 \<le> 30) \<longrightarrow>
            active_gesture (final_state 30 initial_state (pre @ (Some g0, t0) # take i fs)) = Some g0
            \<and> active_gesture (final_state 30 initial_state (pre @ (Some g0, t0) # take i fs))
                 \<noteq> Some g1"
  proof (intro allI impI)
    fix i assume i: "i \<le> length fs" "\<forall>k<i. snd (fs ! k) - t0 \<le> 30"
    then have "\<forall>k<i. snd (fs ! k) - last_sms_time s \<le> 30" by (simp add: s)
    from blocked_prefix_state [OF assms(3,4) i(1) this] s assms(2)
    show "active_gesture (final_state 30 initial_state (pre @ (Some g0, t0) # take i fs)) = Some g0
            \<and> active_gesture (final_state 30 initial_state (pre @ (Some g0, t0) # take i fs))
                 \<noteq> Some g1"
      by (simp add: fin)
  qed
  from 1 2 3 show ?thesis by blast
qed

text \<open>
  C3 at a concrete run from the initial state: no gesture at time 90, Kidnap Alert fires
  at time 100, then Call Police at times 100, 130, 131 and 140. The frames at 100 and 130
  do not fire and leave Kidnap Alert armed; the frame at 131 fires Call Police.
\<close>

theorem cooldown_boundary_witness:
  "decisions 30 initial_state ([(None, 90)] @ [(Some ''Kidnap Alert'', 100)]) ! length [(None, 90::real)]
      = Fire ''Kidnap Alert''
   \<and> decisions 30 initial_state
       ([(None, 90)] @ (Some ''Kidnap Alert'', 100) #
          [(Some ''Call Police'', 100), (Some ''Call Police'', 130), (Some ''Call Police'', 131),
           (Some ''Call Police'', 140)])
     = [NoOp, Fire ''Kidnap Alert'', NoOp, NoOp, Fire ''Call Police'', NoOp]
   \<and> decisions 30 initial_state
       ([(None, 90)] @ (Some ''Kidnap Alert'', 100) #
          [(Some ''Call Police'', 100), (Some ''Call Police'', 130), (Some ''Call Police'', 131),
           (Some ''Call Police'', 140)]) ! (length [(None, 90::real)] + 1 + 1) = NoOp
   \<and> decisions 30 initial_state
       ([(None, 90)] @ (Some ''Kidnap Alert'', 100) #
          [(Some ''Call Police'', 100), (Some ''Call Police'', 130), (Some ''Call Police'', 131),
           (Some ''Call Police'', 140)]) ! (length [(None, 90::real)] + 1 + 2) = Fire ''Call Police''
   \<and> active_gesture (final_state 30 initial_state
        ([(None, 90)] @ (Some ''Kidnap Alert'', 100) #
           take 2 [(Some ''Call Police'', 100), (Some ''Call Police'', 130),
                   (Some ''Call Police'', 131), (Some ''Call Police'', 140)]))
     = Some ''Kidnap Alert''"
proof -
  let ?pre = "[(None :: string option, 90::real)]"
  let ?frames = "[(Some ''Call Police'', 100::real), (Some ''Call Police'', 130),
                  (Some ''Call Police'', 131), (Some ''Call Police'', 140)]"
  let ?run = "?pre @ (Some ''Kidnap Alert'', 100) # ?frames"
  have a: "decisions 30 initial_state (?pre @ [(Some ''Kidnap Alert'', 100)]) ! length ?pre
             = Fire ''Kidnap Alert''"
    by (simp add: frame_step_Some initial_state_def)
  have b: "''Call Police'' \<noteq> ''Kidnap Alert''" by simp
  have c: "''Call Police'' \<noteq> []" by simp
  have d: "\<forall>f\<in>set ?frames. fst f = Some ''Call Police''" by simp
  note t = cooldown_boundary [OF a b c d]
  have 0: "decisions 30 initial_state ?run
             = [NoOp, Fire ''Kidnap Alert'', NoOp, NoOp, Fire ''Call Police'', NoOp]"
    by (simp add: frame_step_Some initial_state_def)
  have 1: "decisions 30 initial_state ?run ! (length ?pre + 1 + 1) = NoOp"
    using t [THEN conjunct1, rule_format, of 1] by simp
  have k: "\<forall>k<2. snd (?frames ! k) - 100 \<le> 30"
    by (simp add: All_less_Suc2 numeral_2_eq_2)
  have 2: "decisions 30 initial_state ?run ! (length ?pre + 1 + 2) = Fire ''Call Police''"
    using t [THEN conjunct2, THEN conjunct1, rule_format, of 2] k by simp
  have 3: "active_gesture (final_state 30 initial_state
             (?pre @ (Some ''Kidnap Alert'', 100) # take 2 ?frames)) = Some ''Kidnap Alert''"
    using t [THEN conjunct2, THEN conjunct2, rule_format, of 2] k by simp
  from a 0 1 2 3 show ?thesis by simp
qed

section \<open>Where the active gesture comes from\<close>

lemma active_gesture_origin:
  assumes "active_gesture (final_state c s fs) = Some g"
  shows "(\<exists>i<length fs. decisions c s fs ! i = Fire g \<and> fst (fs ! i) = Some g
            \<and> (\<forall>j. i < j \<and> j < length fs \<longrightarrow> decisions c s fs ! j = NoOp \<and> truthy (fst (fs ! j))))
       \<or> (active_gesture s = Some g
            \<and> (\<forall>j<length fs. decisions c s fs ! j = NoOp \<and> truthy (fst (fs ! j))))"
  using assms
proof (induction fs arbitrary: s)
  case Nil
  then show ?case by simp
next
  case (Cons f fs)
  obtain gd now where f: "f = (gd, now)" by (cases f)
  obtain s' d where st: "frame_step c s (gd, now) = (s', d)" by (cases "frame_step c s (gd, now)")
  from Cons.prems f st have "active_gesture (final_state c s' fs) = Some g" by simp
  from Cons.IH [OF this]
  consider (later) i where "i < length fs" "decisions c s' fs ! i = Fire g" "fst (fs ! i) = Some g"
      "\<forall>j. i < j \<and> j < length fs \<longrightarrow> decisions c s' fs ! j = NoOp \<and> truthy (fst (fs ! j))"
    | (held) "active_gesture s' = Some g"
      "\<forall>j<length fs. decisions c s' fs ! j = NoOp \<and> truthy (fst (fs ! j))"
    by blast
  then show ?case
  proof cases
    case later
    have "\<forall>j. Suc i < j \<and> j < length (f # fs) \<longrightarrow>
            decisions c s (f # fs) ! j = NoOp \<and> truthy (fst ((f # fs) ! j))"
    proof (intro allI impI)
      fix j assume j: "Suc i < j \<and> j < length (f # fs)"
      then obtain j' where "j = Suc j'" by (cases j) auto
      with j later(4) show "decisions c s (f # fs) ! j = NoOp \<and> truthy (fst ((f # fs) ! j))"
        by (simp add: f st)
    qed
    with later(1-3) have "Suc i < length (f # fs) \<and> decisions c s (f # fs) ! Suc i = Fire g
        \<and> fst ((f # fs) ! Suc i) = Some g
        \<and> (\<forall>j. Suc i < j \<and> j < length (f # fs) \<longrightarrow>
            decisions c s (f # fs) ! j = NoOp \<and> truthy (fst ((f # fs) ! j)))"
      by (simp add: f st)
    then show ?thesis by blast
  next
    case held
    show ?thesis
    proof (cases d)
      case (Fire g')
      with st frame_step_FireD [of c s gd now s' g'] held(1) have "g' = g" "gd = Some g" by simp_all
      with Fire st held(2) have "0 < length (f # fs) \<and> decisions c s (f # fs) ! 0 = Fire g
        \<and> fst ((f # fs) ! 0) = Some g
        \<and> (\<forall>j. 0 < j \<and> j < length (f # fs) \<longrightarrow>
            decisions c s (f # fs) ! j = NoOp \<and> truthy (fst ((f # fs) ! j)))"
        by (auto simp: f gr0_conv_Suc)
      then show ?thesis by blast
    next
      case NoOp
      with st frame_step_NoOpD [of c s gd now s'] held(1)
      have "truthy gd" "active_gesture s = Some g" by (auto split: if_splits)
      with NoOp st held(2) have "active_gesture s = Some g
            \<and> (\<forall>j<length (f # fs). decisions c s (f # fs) ! j = NoOp \<and> truthy (fst ((f # fs) ! j)))"
        by (auto simp: f All_less_Suc2)
      then show ?thesis by blast
    qed
  qed
qed

text \<open>
  C4: the claim fails. After Kidnap Alert fires at time 100, a frame at time 101 that
  detects Testing / V-Sign (blocked by the cooldown) leaves \<open>active_gesture\<close> at Kidnap
  Alert, although Kidnap Alert was not the gesture detected in that frame.
\<close>

theorem active_gesture_invariant_counterexample:
  "active_gesture (final_state 30 initial_state
       [(Some ''Kidnap Alert'', 100), (Some ''Testing / V-Sign'', 101)]) = Some ''Kidnap Alert''
   \<and> decisions 30 initial_state
       [(Some ''Kidnap Alert'', 100), (Some ''Testing / V-Sign'', 101)] = [Fire ''Kidnap Alert'', NoOp]
   \<and> fst ([(Some ''Kidnap Alert'', 100::real), (Some ''Testing / V-Sign'', 101)] ! 1)
       \<noteq> Some ''Kidnap Alert''"
  by (simp add: frame_step_Some initial_state_def)

text \<open>
  C4, amended: in every state reached from the initial state, a non-null
  \<open>active_gesture\<close> is the gesture of the most recent fire, it was the gesture detected
  in the frame that fired, and every frame since then has detected some gesture (not
  necessarily the same one).
\<close>

theorem active_gesture_invariant:
  assumes "active_gesture (final_state cooldown initial_state fs) = Some g"
  shows "\<exists>i<length fs. decisions cooldown initial_state fs ! i = Fire g \<and> fst (fs ! i) = Some g
            \<and> (\<forall>j. i < j \<and> j < length fs \<longrightarrow>
                  decisions cooldown initial_state fs ! j = NoOp \<and> truthy (fst (fs ! j)))"
  using active_gesture_origin [OF assms] by (simp add: initial_state_def)

text \<open>
  C4, amended, at a concrete run: Kidnap Alert at time 100, Testing / V-Sign at time 101,
  cooldown 30.
\<close>

theorem active_gesture_invariant_witness:
  "active_gesture (final_state 30 initial_state
       [(Some ''Kidnap Alert'', 100), (Some ''Testing / V-Sign'', 101)]) = Some ''Kidnap Alert''
   \<and> (\<exists>i<length [(Some ''Kidnap Alert'', 100::real), (Some ''Testing / V-Sign'', 101)].
         decisions 30 initial_state [(Some ''Kidnap Alert'', 100), (Some ''Testing / V-Sign'', 101)] ! i
           = Fire ''Kidnap Alert''
         \<and> fst ([(Some ''Kidnap Alert'', 100::real), (Some ''Testing / V-Sign'', 101)] ! i) = Some ''Kidnap Alert''
         \<and> (\<forall>j. i < j \<and> j < length [(Some ''Kidnap Alert'', 100::real), (Some ''Testing / V-Sign'', 101)] \<longrightarrow>
               decisions 30 initial_state [(Some ''Kidnap Alert'', 100), (Some ''Testing / V-Sign'', 101)] ! j = NoOp
               \<and> truthy (fst ([(Some ''Kidnap Alert'', 100::real), (Some ''Testing / V-Sign'', 101)] ! j))))"
proof -
  have h: "active_gesture (final_state 30 initial_state
       [(Some ''Kidnap Alert'', 100), (Some ''Testing / V-Sign'', 101)]) = Some ''Kidnap Alert''"
    by (simp add: frame_step_Some initial_state_def)
  from active_gesture_invariant [OF h] h show ?thesis by blast
qed

section \<open>Sending an alert: effects and results\<close>

lemmas fixture_defs =
  config_unset_def config_set_def create_accepts_def create_blocks_sms_def create_offline_def
  fetch_queued_def fetch_undelivered_def world_quiet_def world_no_sound_def world_blocked_def
  world_blocked_ascii_def world_offline_def world_undelivered_def

lemmas send_alert_defs =
  send_alert_def deliver_def sms_attempt_def whatsapp_attempt_def sms_args_def whatsapp_args_def
  alert_body_def get_location_def fallback_location_def client_configured_def Let_def

lemma log_records_append [simp]: "log_records (xs @ ys) = log_records xs @ log_records ys"
  by (induction xs rule: log_records.induct) simp_all

lemma attempts_append [simp]: "attempts (xs @ ys) = attempts xs @ attempts ys"
  by (induction xs rule: attempts.induct) simp_all

lemma sends_append [simp]: "sends (xs @ ys) = sends xs @ sends ys"
  by (induction xs rule: sends.induct) simp_all

lemma requests_append [simp]: "requests (xs @ ys) = requests xs @ requests ys"
  by (induction xs rule: requests.induct) simp_all

lemma sms_attempt_effects:
  "log_records (fst (sms_attempt w cfg b)) = [] \<and> attempts (fst (sms_attempt w cfg b)) = []
   \<and> sends (fst (sms_attempt w cfg b)) = [sms_args cfg b]"
  by (simp add: sms_attempt_def Let_def split: sum.splits)

lemma whatsapp_attempt_effects:
  "log_records (fst (whatsapp_attempt w cfg b)) = [] \<and> attempts (fst (whatsapp_attempt w cfg b)) = []
   \<and> length (sends (fst (whatsapp_attempt w cfg b))) \<le> 1"
  by (simp add: whatsapp_attempt_def Let_def split: option.splits)

lemma sms_attempt_result:
  "snd (sms_attempt w cfg b) =
     (case messages_create w (sms_args cfg b) of
        Inl e \<Rightarrow> Inl e
      | Inr message \<Rightarrow>
          (case messages_fetch w (sid message) of
             Inl e \<Rightarrow> Inl e
           | Inr st \<Rightarrow> Inr (st = ''sent'' \<or> st = ''delivered'' \<or> st = ''queued'')))"
  by (simp add: sms_attempt_def Let_def split: sum.splits)

lemma whatsapp_attempt_result:
  "snd (whatsapp_attempt w cfg b) =
     (case RECIPIENT_PHONE_NUMBER cfg of
        None \<Rightarrow> Inl TypeError
      | Some recipient \<Rightarrow> messages_create w (whatsapp_args recipient b))"
  by (simp add: whatsapp_attempt_def Let_def split: option.splits)

lemma deliver_attempts:
  "attempts (fst (deliver w cfg b)) =
     (if client_configured cfg
      then SMS # (if sms_blocked w cfg b \<and> stdout_unicode w then [WhatsApp] else [])
      else [])"
  using sms_attempt_effects [of w cfg b] whatsapp_attempt_effects [of w cfg b]
  by (auto simp: deliver_def sms_blocked_def split: prod.splits sum.splits exn.splits)

lemma deliver_log_records: "log_records (fst (deliver w cfg b)) = []"
  using sms_attempt_effects [of w cfg b] whatsapp_attempt_effects [of w cfg b]
  by (auto simp: deliver_def split: prod.splits sum.splits exn.splits)

lemma deliver_sends:
  "length (sends (fst (deliver w cfg b))) \<le> length (attempts (fst (deliver w cfg b)))"
  using sms_attempt_effects [of w cfg b] whatsapp_attempt_effects [of w cfg b]
  by (auto simp: deliver_def split: prod.splits sum.splits exn.splits)

lemma deliver_sends_exact:
  "sends (fst (deliver w cfg b)) =
     (if client_configured cfg
      then sms_args cfg b #
             (if sms_blocked w cfg b \<and> stdout_unicode w
              then (case RECIPIENT_PHONE_NUMBER cfg of
                      None \<Rightarrow> []
                    | Some recipient \<Rightarrow> [whatsapp_args recipient b])
              else [])
      else [])"
proof -
  have w: "sends (fst (whatsapp_attempt w cfg b)) =
      (case RECIPIENT_PHONE_NUMBER cfg of None \<Rightarrow> [] | Some recipient \<Rightarrow> [whatsapp_args recipient b])"
    by (simp add: whatsapp_attempt_def Let_def split: option.splits)
  show ?thesis
    using sms_attempt_effects [of w cfg b] w
    by (auto simp: deliver_def sms_blocked_def split: prod.splits sum.splits exn.splits)
qed

lemma deliver_method:
  "snd (deliver w cfg b) = Inr (m, ok) \<Longrightarrow> m = (if sms_blocked w cfg b then ''WhatsApp'' else ''SMS'')"
  by (auto simp: deliver_def sms_blocked_def split: prod.splits sum.splits exn.splits if_splits)

lemma deliver_result:
  "snd (deliver w cfg b) =
     (if client_configured cfg then
        (case snd (sms_attempt w cfg b) of
           Inr ok \<Rightarrow> Inr (''SMS'', ok)
         | Inl (TwilioRestException code) \<Rightarrow>
             if code = Some 30004
             then if stdout_unicode w
                  then Inr (''WhatsApp'',
                            case snd (whatsapp_attempt w cfg b) of Inr m \<Rightarrow> True | Inl e \<Rightarrow> False)
                  else Inl UnicodeEncodeError
             else Inr (''SMS'', False)
         | Inl e \<Rightarrow> Inl e)
      else Inr (''SMS'', False))"
  by (auto simp: deliver_def split: prod.splits sum.splits exn.splits)

lemma send_alert_cases:
  "send_alert w cfg p g =
     (case snd (deliver w cfg (alert_body w g)) of
        Inl e \<Rightarrow> (GeocoderIp # fst (deliver w cfg (alert_body w g)), Some e)
      | Inr (m, ok) \<Rightarrow>
          (case play_alert_sound w of
             Some e \<Rightarrow> (GeocoderIp # fst (deliver w cfg (alert_body w g)) @ [PlayAlertSound], Some e)
           | None \<Rightarrow> (GeocoderIp # fst (deliver w cfg (alert_body w g)) @
                  [PlayAlertSound,
                   LogAppend \<lparr>rec_timestamp = now_stamp w, rec_gesture = g,
                     rec_city = snd (snd (get_location (geocoder_ip w))), method_used = m, success = ok,
                     rec_screenshot = p\<rparr>], None)))"
  by (simp add: send_alert_def Let_def split: prod.splits sum.splits option.splits)

lemma log_records_mem: "LogAppend r \<in> set es \<longleftrightarrow> r \<in> set (log_records es)"
  by (induction es rule: log_records.induct) auto

section \<open>One record per call\<close>


text \<open>
  The outer \<open>except\<close> names \<open>TwilioRestException\<close> only: another exception of the SMS
  attempt, such as a connection error, leaves \<open>send_alert\<close> as well, before the sound and
  the log append.
\<close>

lemma sms_connection_error_escapes:
  "snd (send_alert world_offline config_set ''shot.jpg'' ''Kidnap Alert'') = Some OtherException
   \<and> log_records (fst (send_alert world_offline config_set ''shot.jpg'' ''Kidnap Alert'')) = []"
  by (simp add: send_alert_defs fixture_defs)



section \<open>The channel fallback\<close>

text \<open>
  An attempt on a channel is one execution of the \<open>try\<close> block that sends on it. The
  attempts of a call are the SMS attempt when a client is configured, followed by one
  WhatsApp attempt exactly when the SMS attempt ended with \<open>TwilioRestException\<close> code
  30004 and the notice of the switch could be printed; there is never a third attempt or a
  second one on the same channel, and each attempt makes at most one \<open>create\<close> request.
  When the call returns, its one record names WhatsApp if the SMS attempt was blocked and
  SMS otherwise.
\<close>

lemma send_alert_channels:
  "attempts (fst (send_alert w cfg p g)) =
     (if client_configured cfg
      then SMS # (if primary_blocked w cfg g \<and> stdout_unicode w then [WhatsApp] else [])
      else [])
   \<and> length (sends (fst (send_alert w cfg p g))) \<le> length (attempts (fst (send_alert w cfg p g)))
   \<and> sends (fst (send_alert w cfg p g)) =
       (if client_configured cfg
        then sms_args cfg (alert_body w g) #
               (if primary_blocked w cfg g \<and> stdout_unicode w
                then (case RECIPIENT_PHONE_NUMBER cfg of
                        None \<Rightarrow> []
                      | Some recipient \<Rightarrow> [whatsapp_args recipient (alert_body w g)])
                else [])
        else [])
   \<and> map method_used (log_records (fst (send_alert w cfg p g))) =
       (if snd (send_alert w cfg p g) = None
        then [if primary_blocked w cfg g then ''WhatsApp'' else ''SMS''] else [])"
proof -
  let ?b = "alert_body w g"
  have pb: "primary_blocked w cfg g = sms_blocked w cfg ?b"
    by (simp add: primary_blocked_def)
  have 1: "attempts (fst (send_alert w cfg p g)) = attempts (fst (deliver w cfg ?b))"
    by (simp add: send_alert_cases split: sum.splits option.splits prod.splits)
  have 2: "sends (fst (send_alert w cfg p g)) = sends (fst (deliver w cfg ?b))"
    by (simp add: send_alert_cases split: sum.splits option.splits prod.splits)
  have 3: "map method_used (log_records (fst (send_alert w cfg p g))) =
       (if snd (send_alert w cfg p g) = None
        then [if sms_blocked w cfg ?b then ''WhatsApp'' else ''SMS''] else [])"
    using deliver_method [of w cfg ?b]
    by (auto simp: send_alert_cases deliver_log_records split: sum.splits option.splits prod.splits)
  show ?thesis
    unfolding 1 2 pb
    using 3 deliver_attempts [of w cfg ?b] deliver_sends [of w cfg ?b]
      deliver_sends_exact [of w cfg ?b]
    by simp
qed

text \<open>
  When the SMS attempt is blocked and standard output cannot encode the notice, the
  \<open>UnicodeEncodeError\<close> of \<open>print\<close> leaves \<open>send_alert\<close>: the only attempt was the SMS
  one, the sound is not played and no record is appended.
\<close>

lemma blocked_notice_escapes:
  assumes "primary_blocked w cfg g" "\<not> stdout_unicode w"
  shows "snd (send_alert w cfg p g) = Some UnicodeEncodeError
       \<and> attempts (fst (send_alert w cfg p g)) = [SMS]
       \<and> log_records (fst (send_alert w cfg p g)) = []
       \<and> PlayAlertSound \<notin> set (fst (send_alert w cfg p g))"
proof -
  let ?b = "alert_body w g"
  from assms have c: "client_configured cfg" and b: "sms_blocked w cfg ?b"
    by (simp_all add: primary_blocked_def sms_blocked_def)
  from b assms(2) have d: "snd (deliver w cfg ?b) = Inl UnicodeEncodeError"
    by (simp add: deliver_result sms_blocked_def)
  from b assms(2) obtain es where es: "fst (deliver w cfg ?b) = Attempt SMS # es"
    "es = fst (sms_attempt w cfg ?b)"
    by (auto simp: deliver_def sms_blocked_def split: prod.splits sum.splits exn.splits)
  have "PlayAlertSound \<notin> set es"
    unfolding es(2) by (auto simp: sms_attempt_def Let_def split: sum.splits)
  with d es(1) show ?thesis
    using deliver_attempts [of w cfg ?b] deliver_log_records [of w cfg ?b] c b assms(2)
    by (simp add: send_alert_cases)
qed

text \<open>
  C8: the code departs from the claim. The SMS attempt is rejected with code 30004 and
  standard output is ASCII: the SMS attempt is the only attempt, no WhatsApp attempt
  follows, \<open>UnicodeEncodeError\<close> leaves \<open>send_alert\<close>, no sound is played and no record is
  appended. With the same rejection on a UTF-8 console the attempts are SMS then WhatsApp
  and the record names WhatsApp.
\<close>

theorem fallback_lost_on_ascii_console:
  "client_configured config_set
   \<and> primary_blocked world_blocked_ascii config_set ''Kidnap Alert''
   \<and> attempts (fst (send_alert world_blocked_ascii config_set ''shot.jpg'' ''Kidnap Alert'')) = [SMS]
   \<and> snd (send_alert world_blocked_ascii config_set ''shot.jpg'' ''Kidnap Alert'')
       = Some UnicodeEncodeError
   \<and> log_records (fst (send_alert world_blocked_ascii config_set ''shot.jpg'' ''Kidnap Alert'')) = []
   \<and> PlayAlertSound \<notin> set (fst (send_alert world_blocked_ascii config_set ''shot.jpg'' ''Kidnap Alert''))
   \<and> primary_blocked world_blocked config_set ''Kidnap Alert''
   \<and> attempts (fst (send_alert world_blocked config_set ''shot.jpg'' ''Kidnap Alert''))
       = [SMS, WhatsApp]
   \<and> map method_used (log_records (fst (send_alert world_blocked config_set ''shot.jpg'' ''Kidnap Alert'')))
       = [''WhatsApp'']"
  by (simp add: primary_blocked_def sms_blocked_def send_alert_defs fixture_defs)

section \<open>No client configured\<close>




section \<open>What counts as success\<close>

text \<open>
  C10: in a record written by \<open>send_alert\<close>, an SMS record has success exactly when the
  SMS was created and the fetched status is "sent", "delivered" or "queued"; a WhatsApp
  record has success exactly when the WhatsApp \<open>create\<close> returned a message, whatever the
  status of that message.
\<close>

theorem success_criteria:
  assumes "LogAppend r \<in> set (fst (send_alert w cfg p g))"
  shows "(method_used r = ''SMS'' \<longrightarrow>
            success r =
              (client_configured cfg \<and>
               (\<exists>message st. messages_create w (sms_args cfg (alert_body w g)) = Inr message
                    \<and> messages_fetch w (sid message) = Inr st
                    \<and> (st = ''sent'' \<or> st = ''delivered'' \<or> st = ''queued''))))
       \<and> (method_used r = ''WhatsApp'' \<longrightarrow>
            success r =
              (\<exists>recipient whatsapp_msg. RECIPIENT_PHONE_NUMBER cfg = Some recipient
                    \<and> messages_create w (whatsapp_args recipient (alert_body w g)) = Inr whatsapp_msg))"
proof -
  let ?b = "alert_body w g"
  from assms obtain m ok where d: "snd (deliver w cfg ?b) = Inr (m, ok)"
    and r: "method_used r = m" "success r = ok"
    by (auto simp: send_alert_cases log_records_mem deliver_log_records
        split: sum.splits option.splits prod.splits)
  from d show ?thesis
    unfolding r deliver_result sms_attempt_result whatsapp_attempt_result
    by (auto split: if_splits sum.splits exn.splits option.splits)
qed

text \<open>
  C10 at concrete calls: an SMS whose fetched status is "undelivered" is recorded as a
  failure; a WhatsApp message returned with status "failed" is recorded as a success.
\<close>

theorem success_criteria_witness:
  "LogAppend \<lparr>rec_timestamp = ''2024-05-01_12-00-00'', rec_gesture = ''Kidnap Alert'',
              rec_city = ''Hyderabad'', method_used = ''SMS'', success = False,
              rec_screenshot = ''shot.jpg''\<rparr>
     \<in> set (fst (send_alert world_undelivered config_set ''shot.jpg'' ''Kidnap Alert''))
   \<and> messages_fetch world_undelivered ''SM01'' = Inr ''undelivered''
   \<and> LogAppend \<lparr>rec_timestamp = ''2024-05-01_12-00-00'', rec_gesture = ''Kidnap Alert'',
              rec_city = ''Hyderabad'', method_used = ''WhatsApp'', success = True,
              rec_screenshot = ''shot.jpg''\<rparr>
     \<in> set (fst (send_alert world_blocked config_set ''shot.jpg'' ''Kidnap Alert''))
   \<and> messages_create world_blocked
        (whatsapp_args ''+15550199'' (alert_body world_blocked ''Kidnap Alert''))
       = Inr \<lparr>sid = ''SM02'', status = ''failed''\<rparr>"
proof -
  let ?r1 = "\<lparr>rec_timestamp = ''2024-05-01_12-00-00'', rec_gesture = ''Kidnap Alert'',
              rec_city = ''Hyderabad'', method_used = ''SMS'', success = False,
              rec_screenshot = ''shot.jpg''\<rparr>"
  let ?r2 = "\<lparr>rec_timestamp = ''2024-05-01_12-00-00'', rec_gesture = ''Kidnap Alert'',
              rec_city = ''Hyderabad'', method_used = ''WhatsApp'', success = True,
              rec_screenshot = ''shot.jpg''\<rparr>"
  have a: "LogAppend ?r1 \<in> set (fst (send_alert world_undelivered config_set ''shot.jpg'' ''Kidnap Alert''))"
    by (simp add: send_alert_defs fixture_defs)
  have b: "LogAppend ?r2 \<in> set (fst (send_alert world_blocked config_set ''shot.jpg'' ''Kidnap Alert''))"
    by (simp add: send_alert_defs fixture_defs)
  have c: "messages_fetch world_undelivered ''SM01'' = Inr ''undelivered''"
    by (simp add: fixture_defs)
  have d: "messages_create world_blocked
        (whatsapp_args ''+15550199'' (alert_body world_blocked ''Kidnap Alert''))
       = Inr \<lparr>sid = ''SM02'', status = ''failed''\<rparr>"
    by (simp add: fixture_defs whatsapp_args_def)
  note t1 = success_criteria [OF a]
  note t2 = success_criteria [OF b]
  from a b c d t1 t2 show ?thesis by simp
qed

end
